theory Spec2Isabelle
  imports Complex_Main "HOL-Library.Sublist" "HOL-Library.AList"
begin

section \<open>Python primitives used by \<open>gpu.py\<close> and \<open>sakura.py\<close>\<close>

text \<open>
  A Python \<open>str\<close> is modelled as a HOL \<open>string\<close>: one \<open>char\<close> per code point, for text
  whose code points are below 256. Python \<open>int\<close> is \<open>int\<close>, Python \<open>float\<close> is \<open>real\<close>
  (dividing a byte count below \<open>2^53\<close> by \<open>2^30\<close> is exact in binary floating point, so
  the GiB figures compared by the code are the exact quotients). The interpreter's optional
  limit on the number of digits in an int/str conversion is not modelled.
\<close>

datatype exn = ValueError | IndexError | KeyError | CalculatorError

text \<open>\<open>sep in s\<close> for strings is \<^const>\<open>sublist\<close>; \<open>s.split(sep)\<close> for a non-empty
  separator cuts at the leftmost, non-overlapping occurrences.\<close>

fun split_from :: "char \<Rightarrow> string \<Rightarrow> string \<Rightarrow> string \<Rightarrow> string list" where
  "split_from a as cur [] = [cur]"
| "split_from a as cur (c # cs) =
     (if prefix (a # as) (c # cs) then cur # split_from a as [] (drop (length as) cs)
      else split_from a as (cur @ [c]) cs)"

definition py_split :: "string \<Rightarrow> string \<Rightarrow> exn + string list" where
  "py_split s sep = (case sep of [] \<Rightarrow> Inl ValueError | a # as \<Rightarrow> Inr (split_from a as [] s))"

text \<open>\<open>s.rstrip(")")\<close> removes every trailing \<open>)\<close>.\<close>

definition rstrip_paren :: "string \<Rightarrow> string" where
  "rstrip_paren s = rev (dropWhile (\<lambda>c. c = CHR '')'') (rev s))"

text \<open>\<open>str(i)\<close> and \<open>f"{i}"\<close> for an int: decimal digits, with a leading minus sign
  for a negative number.\<close>

definition digit_char :: "nat \<Rightarrow> char" where
  "digit_char d = ''0123456789'' ! d"

fun digits_of :: "nat \<Rightarrow> string" where
  "digits_of n = (if n < 10 then [digit_char n] else digits_of (n div 10) @ [digit_char (n mod 10)])"

declare digits_of.simps [simp del]

definition py_str :: "int \<Rightarrow> string" where
  "py_str i = (if i < 0 then CHR ''-'' # digits_of (nat (- i)) else digits_of (nat i))"

text \<open>
  \<open>int(s, base)\<close> for a string, after CPython's \<open>PyLong_FromString\<close>: surrounding
  whitespace is skipped, then an optional sign, for base 16 an optional \<open>0x\<close>/\<open>0X\<close> prefix
  (which may be followed by one underscore), then at least one digit of the base, with single
  underscores allowed between digits; anything else raises \<open>ValueError\<close>.
\<close>

definition py_isspace :: "char \<Rightarrow> bool" where
  "py_isspace c = (let k = (of_char c :: nat) in (9 \<le> k \<and> k \<le> 13) \<or> k = 32 \<or> k = 133 \<or> k = 160)"

definition digit_value :: "char \<Rightarrow> nat option" where
  "digit_value c =
     (let k = (of_char c :: nat) in
      if 48 \<le> k \<and> k \<le> 57 then Some (k - 48)
      else if 97 \<le> k \<and> k \<le> 122 then Some (k - 87)
      else if 65 \<le> k \<and> k \<le> 90 then Some (k - 55)
      else None)"

definition is_digit :: "nat \<Rightarrow> char \<Rightarrow> bool" where
  "is_digit base c = (case digit_value c of Some d \<Rightarrow> d < base | None \<Rightarrow> False)"

definition strip_sign :: "string \<Rightarrow> bool \<times> string" where
  "strip_sign s =
     (case s of
        c # cs \<Rightarrow> if c = CHR ''+'' then (False, cs) else if c = CHR ''-'' then (True, cs) else (False, s)
      | [] \<Rightarrow> (False, s))"

definition strip_prefix :: "nat \<Rightarrow> string \<Rightarrow> string" where
  "strip_prefix base s =
     (case s of
        c # x # cs \<Rightarrow>
          if base = 16 \<and> c = CHR ''0'' \<and> (x = CHR ''x'' \<or> x = CHR ''X'')
          then (case cs of u # us \<Rightarrow> if u = CHR ''_'' then us else cs | [] \<Rightarrow> cs)
          else s
      | _ \<Rightarrow> s)"

fun underscores_ok :: "string \<Rightarrow> bool" where
  "underscores_ok [] = True"
| "underscores_ok [c] = (c \<noteq> CHR ''_'')"
| "underscores_ok (c # d # cs) = (\<not> (c = CHR ''_'' \<and> d = CHR ''_'') \<and> underscores_ok (d # cs))"

definition digits_value :: "nat \<Rightarrow> string \<Rightarrow> nat" where
  "digits_value base ds =
     foldl (\<lambda>acc c. acc * base + the (digit_value c)) 0 (filter (\<lambda>c. c \<noteq> CHR ''_'') ds)"

definition py_int :: "string \<Rightarrow> nat \<Rightarrow> exn + int" where
  "py_int s base =
     (let (neg, s1) = strip_sign (dropWhile py_isspace s);
          s2 = strip_prefix base s1;
          body = takeWhile (\<lambda>c. is_digit base c \<or> c = CHR ''_'') s2;
          rest = dropWhile (\<lambda>c. is_digit base c \<or> c = CHR ''_'') s2
      in if body = [] \<or> hd body = CHR ''_'' \<or> \<not> underscores_ok body
            \<or> dropWhile py_isspace rest \<noteq> []
         then Inl ValueError
         else Inr (if neg then - int (digits_value base body) else int (digits_value base body)))"

text \<open>\<open>xs[i]\<close> on a list: a negative index counts from the end, an index outside the
  list raises \<open>IndexError\<close>.\<close>

definition py_index :: "'a list \<Rightarrow> int \<Rightarrow> exn + 'a" where
  "py_index xs i =
     (if 0 \<le> i \<and> i < int (length xs) then Inr (xs ! nat i)
      else if i < 0 \<and> - int (length xs) \<le> i then Inr (xs ! nat (int (length xs) + i))
      else Inl IndexError)"

section \<open>Data model\<close>

datatype GPUType = NVIDIA | AMD | INTEL | UNKNOWN

text \<open>
  The \<open>reason\<close> of a \<open>GPUAbility\<close> is one of the message templates of \<open>gpu.py\<close>, kept with
  the values its f-string formats: the empty string, the "not found" and the "only NVIDIA and
  AMD" messages, and the three "not enough memory" messages, which cite the device name and
  (dynamic check) the required, available and total GiB, (fallback after a calculator failure)
  the minimum and the available GiB, (static check) the minimum and the total GiB.
\<close>

datatype reason =
    Empty
  | NotFound
  | UnsupportedVendor
  | DynamicShort string real real real
  | FallbackShort string real real
  | StaticShort string real real

record GPUAbility =
  is_capable :: bool
  reason :: reason

text \<open>Modelled from the spec: the class \<open>GPUInfo\<close> of \<open>utils/gpu\<close> is not among the sources;
  its fields are those of the spec's Device, under the names \<open>gpu.py\<close> reads and writes.\<close>

record GPUInfo =
  index :: "int option"
  name :: string
  gpu_type :: GPUType
  dedicated_gpu_memory :: int
  avail_dedicated_gpu_memory :: "int option"
  pci_bus_id :: "string option"
  ability :: "GPUAbility option"

record Sakura =
  repo :: string
  filename :: string
  sha256 :: string
  minimal_gpu_memory_gib :: int
  base_model_hf :: string

text \<open>\<open>SakuraList.__getitem__\<close>: the first model with that file name, else \<open>None\<close>.\<close>

definition sakura_getitem :: "Sakura list \<Rightarrow> string \<Rightarrow> Sakura option" where
  "sakura_getitem sakura_list model_name = find (\<lambda>model. filename model = model_name) sakura_list"

text \<open>Modelled from the spec: \<open>BytesToGiB\<close> of \<open>utils\<close> is not among the sources; a byte
  count in GiB is the count divided by \<open>2^30\<close>.\<close>

definition BytesToGiB :: "int \<Rightarrow> real" where
  "BytesToGiB b = real_of_int b / 2 ^ 30"

text \<open>
  The dictionary \<open>gpu_info_map\<close> is an association list in insertion order. The manager
  keeps it with the per-vendor lists of display names.
\<close>

record GPUManager =
  gpu_info_map :: "(string \<times> GPUInfo) list"
  nvidia_gpus :: "string list"
  amd_gpus :: "string list"
  intel_gpus :: "string list"

section \<open>\<open>GPUDisplayHelper\<close>\<close>

definition truthy :: "string option \<Rightarrow> bool" where
  "truthy s = (case s of None \<Rightarrow> False | Some t \<Rightarrow> t \<noteq> [])"

definition create_display_name :: "GPUInfo \<Rightarrow> int \<Rightarrow> string" where
  "create_display_name gpu_info i =
     (if truthy (pci_bus_id gpu_info) then name gpu_info @ '' (GPU '' @ py_str i @ '')''
      else name gpu_info)"

text \<open>The unpacking of the split into two names is outside the \<open>try\<close>; only the
  conversion of the index is inside it.\<close>

definition parse_display_name :: "string \<Rightarrow> exn + (string \<times> int option)" where
  "parse_display_name display_name =
     (if sublist '' (GPU '' display_name \<and> sublist '')'' display_name then
        (case py_split display_name '' (GPU '' of
           Inl e \<Rightarrow> Inl e
         | Inr [name_part, index_part] \<Rightarrow>
             (case py_int (rstrip_paren index_part) 10 of
                Inr i \<Rightarrow> Inr (name_part, Some i)
              | Inl e \<Rightarrow> if e = ValueError then Inr (display_name, None) else Inl e)
         | Inr _ \<Rightarrow> Inl ValueError)
      else Inr (display_name, None))"

definition find_gpu_key :: "string \<Rightarrow> (string \<times> GPUInfo) list \<Rightarrow> exn + string option" where
  "find_gpu_key display_name m =
     (if display_name \<in> set (map fst m) then Inr (Some display_name)
      else
        (case parse_display_name display_name of
           Inl e \<Rightarrow> Inl e
         | Inr (gpu_name, gpu_index) \<Rightarrow>
             (let matching_keys = map fst (filter (\<lambda>(key, info). name info = gpu_name) m) in
              if matching_keys \<noteq> [] then
                (case gpu_index of
                   Some i \<Rightarrow>
                     if i < int (length matching_keys)
                     then map_sum id Some (py_index matching_keys i)
                     else map_sum id Some (py_index matching_keys 0)
                 | None \<Rightarrow> map_sum id Some (py_index matching_keys 0))
              else Inr None)))"

section \<open>\<open>GPUManager\<close>\<close>

text \<open>\<open>get_gpu_index_from_pci\<close>: the body of the \<open>try\<close> returns a value, falls through, or
  raises; the handler catches \<open>IndexError\<close> and \<open>ValueError\<close> and 0 is returned after it.\<close>

definition pci_try :: "string \<Rightarrow> exn + int option" where
  "pci_try pci =
     (if pci \<noteq> [] \<and> sublist '':'' pci then
        (case py_split pci '':'' of
           Inl e \<Rightarrow> Inl e
         | Inr parts \<Rightarrow>
             (case py_index parts 1 of
                Inl e \<Rightarrow> Inl e
              | Inr device_id \<Rightarrow> map_sum id Some (py_int device_id 16)))
      else Inr None)"

definition get_gpu_index_from_pci :: "string \<Rightarrow> exn + int" where
  "get_gpu_index_from_pci pci =
     (case pci_try pci of
        Inr (Some i) \<Rightarrow> Inr i
      | Inr None \<Rightarrow> Inr 0
      | Inl e \<Rightarrow> if e = IndexError \<or> e = ValueError then Inr 0 else Inl e)"

section \<open>\<open>SakuraCalculator\<close>\<close>

text \<open>
  \<open>ModelCalculator\<close> is an external collaborator: \<open>calculate_memory_requirements\<close> is a
  parameter \<open>calc\<close>, which for a context length returns the \<open>total_size_gib\<close> of the sizes it
  computes or raises.
\<close>

record config =
  context_length :: int
  n_parallel :: int

text \<open>The \<open>for\<close> loop over \<open>range(16, 0, -1)\<close>, with \<open>best_config\<close> as it stands on entry;
  \<open>break\<close> leaves the loop with the configuration just stored.\<close>

fun recommend_loop :: "(int \<Rightarrow> exn + real) \<Rightarrow> real \<Rightarrow> int list \<Rightarrow> config \<Rightarrow> exn + config" where
  "recommend_loop calc available_memory_gib [] best_config = Inr best_config"
| "recommend_loop calc available_memory_gib (np # nps) best_config =
     (let ctx = 1536 * np in
      case calc ctx of
        Inl e \<Rightarrow> Inl e
      | Inr total_size_gib \<Rightarrow>
          if total_size_gib \<le> available_memory_gib
          then Inr (best_config\<lparr>context_length := ctx, n_parallel := np\<rparr>)
          else recommend_loop calc available_memory_gib nps best_config)"

definition recommend_config :: "(int \<Rightarrow> exn + real) \<Rightarrow> real \<Rightarrow> exn + config" where
  "recommend_config calc available_memory_gib =
     recommend_loop calc available_memory_gib (rev [1..16])
       \<lparr>context_length = 1536, n_parallel = 1\<rparr>"

section \<open>Capacity checks\<close>

text \<open>The body of the \<open>try\<close> of \<open>_check_dynamic_memory\<close>: it returns the failing verdict,
  falls through (\<open>None\<close>), or raises.\<close>

definition dynamic_try ::
  "(int \<Rightarrow> exn + real) \<Rightarrow> GPUInfo \<Rightarrow> real \<Rightarrow> real \<Rightarrow> int option \<Rightarrow> int option
     \<Rightarrow> exn + GPUAbility option" where
  "dynamic_try calc gpu_info gpu_mem_gib total_mem_gib ctx_opt np_opt =
     (case (case (ctx_opt, np_opt) of
              (Some c, Some n) \<Rightarrow> Inr \<lparr>context_length = c, n_parallel = n\<rparr>
            | _ \<Rightarrow> recommend_config calc gpu_mem_gib) of
        Inl e \<Rightarrow> Inl e
      | Inr cfg \<Rightarrow>
          (case calc (context_length cfg) of
             Inl e \<Rightarrow> Inl e
           | Inr total_size_gib \<Rightarrow>
               if gpu_mem_gib < total_size_gib
               then Inr (Some \<lparr>is_capable = False,
                                reason = DynamicShort (name gpu_info) total_size_gib gpu_mem_gib total_mem_gib\<rparr>)
               else Inr None))"

definition check_dynamic_memory ::
  "(Sakura \<Rightarrow> int \<Rightarrow> exn + real) \<Rightarrow> Sakura list \<Rightarrow> GPUInfo \<Rightarrow> string \<Rightarrow> int option \<Rightarrow> int option
     \<Rightarrow> GPUAbility" where
  "check_dynamic_memory calc sakura_list gpu_info model_name ctx_opt np_opt =
     (let gpu_mem_gib = BytesToGiB (the (avail_dedicated_gpu_memory gpu_info));
          total_mem_gib = BytesToGiB (dedicated_gpu_memory gpu_info)
      in case sakura_getitem sakura_list model_name of
           None \<Rightarrow> \<lparr>is_capable = True, reason = Empty\<rparr>
         | Some model \<Rightarrow>
             (case dynamic_try (calc model) gpu_info gpu_mem_gib total_mem_gib ctx_opt np_opt of
                Inr (Some verdict) \<Rightarrow> verdict
              | Inr None \<Rightarrow> \<lparr>is_capable = True, reason = Empty\<rparr>
              | Inl e \<Rightarrow>
                  (let gpu_mem_req_gib = minimal_gpu_memory_gib model in
                   if gpu_mem_req_gib \<noteq> 0 \<and> gpu_mem_gib < real_of_int gpu_mem_req_gib
                   then \<lparr>is_capable = False,
                         reason = FallbackShort (name gpu_info) (real_of_int gpu_mem_req_gib) gpu_mem_gib\<rparr>
                   else \<lparr>is_capable = True, reason = Empty\<rparr>)))"

definition static_gib :: "int \<Rightarrow> real" where
  "static_gib gpu_mem =
     (if gpu_mem > 2 ^ 30 then real_of_int \<lceil>BytesToGiB gpu_mem\<rceil> else BytesToGiB gpu_mem)"

definition check_static_memory :: "Sakura list \<Rightarrow> GPUInfo \<Rightarrow> string \<Rightarrow> GPUAbility" where
  "check_static_memory sakura_list gpu_info model_name =
     (let gpu_mem_gib = static_gib (dedicated_gpu_memory gpu_info) in
      case sakura_getitem sakura_list model_name of
        None \<Rightarrow> \<lparr>is_capable = True, reason = Empty\<rparr>
      | Some model \<Rightarrow>
          (let gpu_mem_req_gib = minimal_gpu_memory_gib model in
           if gpu_mem_req_gib \<noteq> 0 \<and> gpu_mem_gib < real_of_int gpu_mem_req_gib
           then \<lparr>is_capable = False,
                 reason = StaticShort (name gpu_info) (real_of_int gpu_mem_req_gib) gpu_mem_gib\<rparr>
           else \<lparr>is_capable = True, reason = Empty\<rparr>))"

text \<open>
  \<open>check_gpu_ability\<close> returns the verdict and the manager, whose map holds the device
  with the verdict stored in \<open>ability\<close> when the assignment \<open>gpu_info.ability = ability\<close> is
  reached. A key is usable when it is not \<open>None\<close> and not the empty string
  (\<open>not gpu_key\<close>) and is in the map.
\<close>

definition check_gpu_ability ::
  "(Sakura \<Rightarrow> int \<Rightarrow> exn + real) \<Rightarrow> Sakura list \<Rightarrow> GPUManager \<Rightarrow> string \<Rightarrow> string
     \<Rightarrow> int option \<Rightarrow> int option \<Rightarrow> exn + (GPUAbility \<times> GPUManager)" where
  "check_gpu_ability calc sakura_list self gpu_display_name model_name ctx_opt np_opt =
     (case find_gpu_key gpu_display_name (gpu_info_map self) of
        Inl e \<Rightarrow> Inl e
      | Inr gpu_key \<Rightarrow>
          if \<not> truthy gpu_key \<or> the gpu_key \<notin> set (map fst (gpu_info_map self))
          then Inr (\<lparr>is_capable = False, reason = NotFound\<rparr>, self)
          else
            (case map_of (gpu_info_map self) (the gpu_key) of
               None \<Rightarrow> Inl KeyError
             | Some gpu_info \<Rightarrow>
                 if gpu_type gpu_info \<notin> set [NVIDIA, AMD]
                 then Inr (\<lparr>is_capable = False, reason = UnsupportedVendor\<rparr>, self)
                 else
                   (let verdict =
                          (if avail_dedicated_gpu_memory gpu_info \<noteq> None
                           then check_dynamic_memory calc sakura_list gpu_info model_name ctx_opt np_opt
                           else check_static_memory sakura_list gpu_info model_name)
                    in Inr (verdict,
                            self\<lparr>gpu_info_map :=
                                   AList.map_entry (the gpu_key) (\<lambda>g. g\<lparr>ability := Some verdict\<rparr>)
                                     (gpu_info_map self)\<rparr>))))"

section \<open>Runtime selection\<close>

definition set_gpu_env ::
  "GPUManager \<Rightarrow> (string \<rightharpoonup> string) \<Rightarrow> string \<Rightarrow> int \<Rightarrow> exn + (string \<rightharpoonup> string)" where
  "set_gpu_env self env selected_gpu_display_name selected_index =
     (case find_gpu_key selected_gpu_display_name (gpu_info_map self) of
        Inl e \<Rightarrow> Inl e
      | Inr gpu_key \<Rightarrow>
          if \<not> truthy gpu_key then Inr env
          else
            (case map_of (gpu_info_map self) (the gpu_key) of
               None \<Rightarrow> Inl KeyError
             | Some gpu_info \<Rightarrow>
                 if gpu_type gpu_info = NVIDIA
                 then Inr (env(''CUDA_VISIBLE_DEVICES'' \<mapsto> py_str selected_index))
                 else if gpu_type gpu_info = AMD
                 then Inr (env(''HIP_VISIBLE_DEVICES'' \<mapsto>
                              py_str (selected_index - int (length (nvidia_gpus self)))))
                 else Inr env))"

section \<open>Auxiliary predicates and example devices, models and managers\<close>

definition device :: "string \<Rightarrow> GPUType \<Rightarrow> int \<Rightarrow> int option \<Rightarrow> string option \<Rightarrow> GPUInfo" where
  "device n t mem avail pci =
     \<lparr>index = None, name = n, gpu_type = t, dedicated_gpu_memory = mem,
      avail_dedicated_gpu_memory = avail, pci_bus_id = pci, ability = None\<rparr>"

definition sakura_2gib :: Sakura where
  "sakura_2gib = \<lparr>repo = ''repo'', filename = ''model.gguf'', sha256 = '''',
                  minimal_gpu_memory_gib = 2, base_model_hf = ''base''\<rparr>"

definition manager :: "(string \<times> GPUInfo) list \<Rightarrow> string list \<Rightarrow> GPUManager" where
  "manager m nv = \<lparr>gpu_info_map = m, nvidia_gpus = nv, amd_gpus = [], intel_gpus = []\<rparr>"

definition failing_calc :: "Sakura \<Rightarrow> int \<Rightarrow> exn + real" where
  "failing_calc model ctx = Inl CalculatorError"

definition amd_just_over_1gib :: GPUInfo where
  "amd_just_over_1gib = device ''AMD Radeon'' AMD (2 ^ 30 + 1) None None"

definition amd_1gib :: GPUInfo where
  "amd_1gib = device ''AMD Radeon'' AMD (2 ^ 30) None None"

definition nvidia_8gib_1gib_free :: GPUInfo where
  "nvidia_8gib_1gib_free =
     device ''NVIDIA RTX'' NVIDIA (8 * 2 ^ 30) (Some (2 ^ 30)) (Some ''00000000:01:00.0'')"

definition intel_arc :: GPUInfo where
  "intel_arc = device ''Intel Arc'' INTEL (8 * 2 ^ 30) None None"

definition nvidia_a :: GPUInfo where
  "nvidia_a = device ''NVIDIA A'' NVIDIA (8 * 2 ^ 30) (Some (8 * 2 ^ 30)) (Some ''00000000:01:00.0'')"

definition nvidia_b :: GPUInfo where
  "nvidia_b = device ''NVIDIA B'' NVIDIA (8 * 2 ^ 30) (Some (8 * 2 ^ 30)) (Some ''00000000:02:00.0'')"

definition amd_radeon :: GPUInfo where
  "amd_radeon = device ''AMD Radeon'' AMD (8 * 2 ^ 30) None None"

definition two_nvidia_one_amd :: GPUManager where
  "two_nvidia_one_amd =
     manager [(''00000000:01:00.0'', nvidia_a), (''00000000:02:00.0'', nvidia_b),
              (''AMD Radeon'', amd_radeon)]
       [''NVIDIA A (GPU 1)'', ''NVIDIA B (GPU 2)'']"

definition plain_digits :: "string \<Rightarrow> bool" where
  "plain_digits ds = (\<forall>c\<in>set ds. \<exists>d<10. c = digit_char d)"

definition name_with_gpu_suffix :: GPUInfo where
  "name_with_gpu_suffix = device ''X (GPU'' NVIDIA (8 * 2 ^ 30) None (Some ''00000000:01:00.0'')"

definition two_cards_named_a :: "(string \<times> GPUInfo) list" where
  "two_cards_named_a =
     [(''00000000:01:00.0'', device ''A'' NVIDIA (8 * 2 ^ 30) None (Some ''00000000:01:00.0'')),
      (''00000000:02:00.0'', device ''A'' NVIDIA (8 * 2 ^ 30) None (Some ''00000000:02:00.0''))]"

section \<open>The recommendation search\<close>

lemma recommend_loop_none_fit:
  "\<forall>q\<in>set nps. \<exists>m. calc (1536 * q) = Inr m \<and> avail < m \<Longrightarrow>
   recommend_loop calc avail nps best = Inr best"
  by (induction nps) auto

lemma recommend_loop_first_fit:
  "\<forall>q\<in>set pre. \<exists>m. calc (1536 * q) = Inr m \<and> avail < m \<Longrightarrow>
   calc (1536 * p) = Inr m \<Longrightarrow> m \<le> avail \<Longrightarrow>
   recommend_loop calc avail (pre @ p # post) best =
     Inr (best\<lparr>context_length := 1536 * p, n_parallel := p\<rparr>)"
  by (induction pre) auto

lemma recommend_loop_result:
  "recommend_loop calc avail nps best = Inr cfg \<Longrightarrow>
   (cfg = best \<and> (\<forall>q\<in>set nps. \<exists>m. calc (1536 * q) = Inr m \<and> avail < m))
   \<or> (\<exists>pre p post. nps = pre @ p # post
         \<and> (\<forall>q\<in>set pre. \<exists>m. calc (1536 * q) = Inr m \<and> avail < m)
         \<and> cfg = best\<lparr>context_length := 1536 * p, n_parallel := p\<rparr>
         \<and> (\<exists>m. calc (1536 * p) = Inr m \<and> m \<le> avail))"
proof (induction nps)
  case Nil
  then show ?case by simp
next
  case (Cons a nps)
  show ?case
  proof (cases "calc (1536 * a)")
    case (Inl e)
    with Cons.prems show ?thesis by simp
  next
    case (Inr v)
    show ?thesis
    proof (cases "v \<le> avail")
      case True
      with Inr Cons.prems have "cfg = best\<lparr>context_length := 1536 * a, n_parallel := a\<rparr>"
        by simp
      with True Inr have "a # nps = [] @ a # nps
         \<and> (\<forall>q\<in>set []. \<exists>m. calc (1536 * q) = Inr m \<and> avail < m)
         \<and> cfg = best\<lparr>context_length := 1536 * a, n_parallel := a\<rparr>
         \<and> (\<exists>m. calc (1536 * a) = Inr m \<and> m \<le> avail)"
        by simp
      then show ?thesis by blast
    next
      case False
      with Inr Cons.prems have "recommend_loop calc avail nps best = Inr cfg"
        by simp
      from Cons.IH [OF this] show ?thesis
      proof
        assume "cfg = best \<and> (\<forall>q\<in>set nps. \<exists>m. calc (1536 * q) = Inr m \<and> avail < m)"
        with False Inr show ?thesis by simp
      next
        assume "\<exists>pre p post. nps = pre @ p # post
         \<and> (\<forall>q\<in>set pre. \<exists>m. calc (1536 * q) = Inr m \<and> avail < m)
         \<and> cfg = best\<lparr>context_length := 1536 * p, n_parallel := p\<rparr>
         \<and> (\<exists>m. calc (1536 * p) = Inr m \<and> m \<le> avail)"
        then obtain pre p post where h: "nps = pre @ p # post"
          "\<forall>q\<in>set pre. \<exists>m. calc (1536 * q) = Inr m \<and> avail < m"
          "cfg = best\<lparr>context_length := 1536 * p, n_parallel := p\<rparr>"
          "\<exists>m. calc (1536 * p) = Inr m \<and> m \<le> avail"
          by blast
        with False Inr have "a # nps = (a # pre) @ p # post
          \<and> (\<forall>q\<in>set (a # pre). \<exists>m. calc (1536 * q) = Inr m \<and> avail < m)
          \<and> cfg = best\<lparr>context_length := 1536 * p, n_parallel := p\<rparr>
          \<and> (\<exists>m. calc (1536 * p) = Inr m \<and> m \<le> avail)"
          by simp
        then show ?thesis by blast
      qed
    qed
  qed
qed

lemma range_split:
  assumes "1 \<le> p" "p \<le> 16"
  shows "rev [1..16] = rev [p + 1..16] @ p # rev [1..p - 1]"
proof -
  have "[1..16] = [1..p] @ [p + 1..16]"
    using assms by (rule upto_split2)
  also have "[1..p] = [1..p - 1] @ [p]"
    using assms(1) by (rule upto_rec2)
  finally show ?thesis by simp
qed

lemma range_split_unique:
  assumes "rev [1..16] = pre @ p # post"
  shows "p \<in> {1..16} \<and> set pre = {p<..16}"
proof -
  have "rev (rev [1..16]) = rev (pre @ p # post)"
    using assms by simp
  then have e: "[1..16] = rev post @ p # rev pre"
    by simp
  have "sorted (rev post @ p # rev pre)" "distinct (rev post @ p # rev pre)"
    "set (rev post @ p # rev pre) = {1..16}"
    unfolding e [symmetric] by simp_all
  then have le: "\<forall>y\<in>set pre. p \<le> y \<and> p \<noteq> y" "\<forall>x\<in>set post. x \<le> p \<and> x \<noteq> p"
    and s3: "set post \<union> {p} \<union> set pre = {1..16}"
    by (auto simp: sorted_append)
  from le have s12: "\<forall>y\<in>set pre. p < y" "\<forall>x\<in>set post. x < p"
    by force+
  note s = s12 s3
  from s(3) have "p \<in> {1..16}" by blast
  moreover have "set pre = {p<..16}"
  proof (intro set_eqI iffI)
    fix y assume "y \<in> set pre"
    with s(1,3) show "y \<in> {p<..16}" by auto
  next
    fix y assume y: "y \<in> {p<..16}"
    with \<open>p \<in> {1..16}\<close> have "y \<in> {1..16}" by auto
    with s(3) have "y \<in> set post \<or> y = p \<or> y \<in> set pre" by blast
    with y s(2) show "y \<in> set pre" by auto
  qed
  ultimately show ?thesis by simp
qed

text \<open>
  Claim C3. \<open>recommend_config\<close> tries the parallelism 16, 15, ..., 1 with the context
  length \<open>1536 * p\<close>. It returns the largest \<open>p\<close> whose computed requirement is at most the
  available memory, with the context length \<open>1536 * p\<close>; when every candidate needs more, it
  returns the floor \<open>{1536, 1}\<close>; and whatever it returns is either a candidate that fits,
  larger candidates not fitting, or that floor with nothing fitting. The calculator's answers
  on the candidates examined are the hypotheses: a calculator that raises on one of them makes
  \<open>recommend_config\<close> raise.
\<close>

theorem recommend_config_largest_fit:
  "(p \<in> {1..16} \<and> calc (1536 * p) = Inr m \<and> m \<le> avail
      \<and> (\<forall>q\<in>{p<..16}. \<exists>m'. calc (1536 * q) = Inr m' \<and> avail < m')
     \<longrightarrow> recommend_config calc avail = Inr \<lparr>context_length = 1536 * p, n_parallel = p\<rparr>)
   \<and> ((\<forall>q\<in>{1..16}. \<exists>m'. calc (1536 * q) = Inr m' \<and> avail < m')
     \<longrightarrow> recommend_config calc avail = Inr \<lparr>context_length = 1536, n_parallel = 1\<rparr>)
   \<and> (recommend_config calc avail = Inr cfg
     \<longrightarrow> (\<exists>p\<in>{1..16}. cfg = \<lparr>context_length = 1536 * p, n_parallel = p\<rparr>
            \<and> (\<exists>m'. calc (context_length cfg) = Inr m' \<and> m' \<le> avail)
            \<and> (\<forall>q\<in>{p<..16}. \<exists>m'. calc (1536 * q) = Inr m' \<and> avail < m'))
         \<or> (cfg = \<lparr>context_length = 1536, n_parallel = 1\<rparr>
            \<and> (\<forall>q\<in>{1..16}. \<exists>m'. calc (1536 * q) = Inr m' \<and> avail < m')))"
proof (intro conjI impI)
  assume h: "p \<in> {1..16} \<and> calc (1536 * p) = Inr m \<and> m \<le> avail
      \<and> (\<forall>q\<in>{p<..16}. \<exists>m'. calc (1536 * q) = Inr m' \<and> avail < m')"
  then have split: "rev [1..16] = rev [p + 1..16] @ p # rev [1..p - 1]"
    by (simp add: range_split)
  from h have "\<forall>q\<in>set (rev [p + 1..16]). \<exists>m'. calc (1536 * q) = Inr m' \<and> avail < m'"
    by auto
  with h show "recommend_config calc avail = Inr \<lparr>context_length = 1536 * p, n_parallel = p\<rparr>"
    unfolding recommend_config_def split
    by (simp add: recommend_loop_first_fit)
next
  assume "\<forall>q\<in>{1..16}. \<exists>m'. calc (1536 * q) = Inr m' \<and> avail < m'"
  then have "\<forall>q\<in>set (rev [1..16]). \<exists>m'. calc (1536 * q) = Inr m' \<and> avail < m'"
    by simp
  then show "recommend_config calc avail = Inr \<lparr>context_length = 1536, n_parallel = 1\<rparr>"
    unfolding recommend_config_def by (rule recommend_loop_none_fit)
next
  assume r: "recommend_config calc avail = Inr cfg"
  let ?floor = "\<lparr>context_length = 1536, n_parallel = 1\<rparr>"
  from r have "recommend_loop calc avail (rev [1..16]) ?floor = Inr cfg"
    by (simp add: recommend_config_def)
  from recommend_loop_result [OF this]
  show "(\<exists>p\<in>{1..16}. cfg = \<lparr>context_length = 1536 * p, n_parallel = p\<rparr>
            \<and> (\<exists>m'. calc (context_length cfg) = Inr m' \<and> m' \<le> avail)
            \<and> (\<forall>q\<in>{p<..16}. \<exists>m'. calc (1536 * q) = Inr m' \<and> avail < m'))
         \<or> (cfg = \<lparr>context_length = 1536, n_parallel = 1\<rparr>
            \<and> (\<forall>q\<in>{1..16}. \<exists>m'. calc (1536 * q) = Inr m' \<and> avail < m'))"
  proof
    assume "cfg = ?floor \<and> (\<forall>q\<in>set (rev [1..16]). \<exists>m. calc (1536 * q) = Inr m \<and> avail < m)"
    then show ?thesis by simp
  next
    assume "\<exists>pre p post. rev [1..16] = pre @ p # post
         \<and> (\<forall>q\<in>set pre. \<exists>m. calc (1536 * q) = Inr m \<and> avail < m)
         \<and> cfg = ?floor\<lparr>context_length := 1536 * p, n_parallel := p\<rparr>
         \<and> (\<exists>m. calc (1536 * p) = Inr m \<and> m \<le> avail)"
    then obtain pre p post where h: "rev [1..16] = pre @ p # post"
          "\<forall>q\<in>set pre. \<exists>m. calc (1536 * q) = Inr m \<and> avail < m"
          "cfg = ?floor\<lparr>context_length := 1536 * p, n_parallel := p\<rparr>"
          "\<exists>m. calc (1536 * p) = Inr m \<and> m \<le> avail"
      by blast
    from range_split_unique [OF h(1)] have "p \<in> {1..16}" "set pre = {p<..16}"
      by simp_all
    with h(2,3,4) have "p \<in> {1..16} \<and> cfg = \<lparr>context_length = 1536 * p, n_parallel = p\<rparr>
            \<and> (\<exists>m'. calc (context_length cfg) = Inr m' \<and> m' \<le> avail)
            \<and> (\<forall>q\<in>{p<..16}. \<exists>m'. calc (1536 * q) = Inr m' \<and> avail < m')"
      by simp
    then show ?thesis by blast
  qed
qed

theorem recommend_config_largest_fit_witness:
  "recommend_config (\<lambda>c. Inr (real_of_int c)) 13000 = Inr \<lparr>context_length = 12288, n_parallel = 8\<rparr>
   \<and> recommend_config (\<lambda>c. Inr (real_of_int c)) 1000 = Inr \<lparr>context_length = 1536, n_parallel = 1\<rparr>"
proof -
  let ?calc = "\<lambda>c. Inr (real_of_int c) :: exn + real"
  have "\<And>q::int. 8 < q \<Longrightarrow> (13000::real) < 1536 * real_of_int q"
  proof -
    fix q :: int assume "8 < q"
    then have "9 \<le> q" by simp
    then have "(9::real) \<le> real_of_int q" by linarith
    then show "(13000::real) < 1536 * real_of_int q" by simp
  qed
  then have a: "(8::int) \<in> {1..16} \<and> ?calc (1536 * 8) = Inr 12288 \<and> (12288 :: real) \<le> 13000
      \<and> (\<forall>q\<in>{8<..16}. \<exists>m'. ?calc (1536 * q) = Inr m' \<and> 13000 < m')"
    by simp
  have "\<And>q::int. 1 \<le> q \<Longrightarrow> (1000::real) < 1536 * real_of_int q"
  proof -
    fix q :: int assume "1 \<le> q"
    then have "(1::real) \<le> real_of_int q" by linarith
    then show "(1000::real) < 1536 * real_of_int q" by simp
  qed
  then have b: "\<forall>q\<in>{1..16}. \<exists>m'. ?calc (1536 * q) = Inr m' \<and> 1000 < m'"
    by simp
  from a b recommend_config_largest_fit [of 8 ?calc 12288 13000]
    recommend_config_largest_fit [of 1 ?calc 1 1000]
  show ?thesis by simp
qed

section \<open>Capacity checks: resolution, static mode\<close>

lemma find_gpu_key_direct: "k \<in> set (map fst m) \<Longrightarrow> find_gpu_key k m = Inr (Some k)"
  by (simp add: find_gpu_key_def)

lemma check_gpu_ability_resolved:
  assumes "find_gpu_key label (gpu_info_map self) = Inr (Some key)" "key \<noteq> []"
    and "map_of (gpu_info_map self) key = Some g" "gpu_type g = NVIDIA \<or> gpu_type g = AMD"
  shows "check_gpu_ability calc sl self label model ctx np =
     (let verdict = (if avail_dedicated_gpu_memory g \<noteq> None
                     then check_dynamic_memory calc sl g model ctx np
                     else check_static_memory sl g model)
      in Inr (verdict, self\<lparr>gpu_info_map :=
                 AList.map_entry key (\<lambda>g. g\<lparr>ability := Some verdict\<rparr>) (gpu_info_map self)\<rparr>))"
proof -
  from assms(3) have "key \<in> set (map fst (gpu_info_map self))"
    by (metis domI dom_map_of_conv_image_fst set_map)
  with assms show ?thesis
    by (auto simp: check_gpu_ability_def truthy_def Let_def)
qed

lemma check_gpu_ability_unsupported:
  assumes "find_gpu_key label (gpu_info_map self) = Inr (Some key)" "key \<noteq> []"
    and "map_of (gpu_info_map self) key = Some g" "gpu_type g \<noteq> NVIDIA" "gpu_type g \<noteq> AMD"
  shows "check_gpu_ability calc sl self label model ctx np =
     Inr (\<lparr>is_capable = False, reason = UnsupportedVendor\<rparr>, self)"
proof -
  from assms(3) have "key \<in> set (map fst (gpu_info_map self))"
    by (metis domI dom_map_of_conv_image_fst set_map)
  with assms show ?thesis
    by (auto simp: check_gpu_ability_def truthy_def Let_def)
qed

text \<open>
  Claim C1 (as amended). With no live reading, \<open>check_gpu_ability\<close> compares the total memory
  in GiB, rounded up to a whole GiB when the total exceeds \<open>2^30\<close> bytes and unrounded
  otherwise, with the model's minimum when that is not zero, and fails exactly when the figure
  is strictly below the minimum, citing the minimum and the figure. For \<open>2^30 + 1\<close> bytes and
  a minimum of 2 the figure is 2, which is not below 2: the verdict is capable, with the empty
  reason.
\<close>

theorem check_gpu_ability_static:
  assumes "find_gpu_key label (gpu_info_map self) = Inr (Some key)" "key \<noteq> []"
    and "map_of (gpu_info_map self) key = Some g" "gpu_type g = NVIDIA \<or> gpu_type g = AMD"
    and "avail_dedicated_gpu_memory g = None"
    and "sakura_getitem sl model_name = Some model"
  shows "(\<exists>self'. check_gpu_ability calc sl self label model_name ctx np =
     Inr (if minimal_gpu_memory_gib model \<noteq> 0
             \<and> static_gib (dedicated_gpu_memory g) < real_of_int (minimal_gpu_memory_gib model)
          then \<lparr>is_capable = False,
                reason = StaticShort (name g) (real_of_int (minimal_gpu_memory_gib model))
                           (static_gib (dedicated_gpu_memory g))\<rparr>
          else \<lparr>is_capable = True, reason = Empty\<rparr>, self'))
    \<and> static_gib (dedicated_gpu_memory g) =
      (if dedicated_gpu_memory g > 2 ^ 30
       then real_of_int \<lceil>real_of_int (dedicated_gpu_memory g) / 2 ^ 30\<rceil>
       else real_of_int (dedicated_gpu_memory g) / 2 ^ 30)
    \<and> (dedicated_gpu_memory g = 2 ^ 30 + 1 \<and> minimal_gpu_memory_gib model = 2
      \<longrightarrow> static_gib (dedicated_gpu_memory g) = 2
        \<and> (\<exists>self'. check_gpu_ability calc sl self label model_name ctx np =
              Inr (\<lparr>is_capable = True, reason = Empty\<rparr>, self')))"
proof -
  have sg: "static_gib (dedicated_gpu_memory g) =
      (if dedicated_gpu_memory g > 2 ^ 30
       then real_of_int \<lceil>real_of_int (dedicated_gpu_memory g) / 2 ^ 30\<rceil>
       else real_of_int (dedicated_gpu_memory g) / 2 ^ 30)"
    by (simp add: static_gib_def BytesToGiB_def)
  have main: "\<exists>self'. check_gpu_ability calc sl self label model_name ctx np =
     Inr (if minimal_gpu_memory_gib model \<noteq> 0
             \<and> static_gib (dedicated_gpu_memory g) < real_of_int (minimal_gpu_memory_gib model)
          then \<lparr>is_capable = False,
                reason = StaticShort (name g) (real_of_int (minimal_gpu_memory_gib model))
                           (static_gib (dedicated_gpu_memory g))\<rparr>
          else \<lparr>is_capable = True, reason = Empty\<rparr>, self')"
    unfolding check_gpu_ability_resolved [OF assms(1-4)]
    using assms(5,6) by (simp add: check_static_memory_def Let_def)
  have ex: "dedicated_gpu_memory g = 2 ^ 30 + 1 \<and> minimal_gpu_memory_gib model = 2
      \<longrightarrow> static_gib (dedicated_gpu_memory g) = 2
        \<and> (\<exists>self'. check_gpu_ability calc sl self label model_name ctx np =
              Inr (\<lparr>is_capable = True, reason = Empty\<rparr>, self'))"
  proof
    assume h: "dedicated_gpu_memory g = 2 ^ 30 + 1 \<and> minimal_gpu_memory_gib model = 2"
    then have two: "static_gib (dedicated_gpu_memory g) = 2"
      by (simp add: static_gib_def BytesToGiB_def)
    with h main show "static_gib (dedicated_gpu_memory g) = 2
        \<and> (\<exists>self'. check_gpu_ability calc sl self label model_name ctx np =
              Inr (\<lparr>is_capable = True, reason = Empty\<rparr>, self'))"
      by simp
  qed
  from main sg ex show ?thesis by blast
qed

theorem check_gpu_ability_static_witness:
  "\<exists>self'. check_gpu_ability failing_calc [sakura_2gib] (manager [(''AMD Radeon'', amd_1gib)] [])
      ''AMD Radeon'' ''model.gguf'' None None
    = Inr (\<lparr>is_capable = False, reason = StaticShort ''AMD Radeon'' 2 1\<rparr>, self')"
proof -
  let ?self = "manager [(''AMD Radeon'', amd_1gib)] []"
  have 1: "find_gpu_key ''AMD Radeon'' (gpu_info_map ?self) = Inr (Some ''AMD Radeon'')"
    by (simp add: find_gpu_key_def manager_def)
  have 2: "''AMD Radeon'' \<noteq> []" by simp
  have 3: "map_of (gpu_info_map ?self) ''AMD Radeon'' = Some amd_1gib"
    by (simp add: manager_def)
  have 4: "gpu_type amd_1gib = NVIDIA \<or> gpu_type amd_1gib = AMD"
    by (simp add: amd_1gib_def device_def)
  have 5: "avail_dedicated_gpu_memory amd_1gib = None"
    by (simp add: amd_1gib_def device_def)
  have 6: "sakura_getitem [sakura_2gib] ''model.gguf'' = Some sakura_2gib"
    by (simp add: sakura_getitem_def sakura_2gib_def)
  have 7: "static_gib (dedicated_gpu_memory amd_1gib) = 1"
    by (simp add: static_gib_def BytesToGiB_def amd_1gib_def device_def)
  have 8: "name amd_1gib = ''AMD Radeon''" "minimal_gpu_memory_gib sakura_2gib = 2"
    by (simp_all add: sakura_2gib_def amd_1gib_def device_def)
  from check_gpu_ability_static [OF 1 2 3 4 5 6, of failing_calc None None] 7 8
  show ?thesis by simp
qed

text \<open>The example of claim C1 as the spec states it (not capable) does not hold: the
  device with \<open>2^30 + 1\<close> bytes passes the check of a model whose minimum is 2 GiB.\<close>

theorem static_boundary_counterexample:
  "check_gpu_ability failing_calc [sakura_2gib] (manager [(''AMD Radeon'', amd_just_over_1gib)] [])
      ''AMD Radeon'' ''model.gguf'' None None
    = Inr (\<lparr>is_capable = True, reason = Empty\<rparr>,
           manager [(''AMD Radeon'',
                     amd_just_over_1gib\<lparr>ability := Some \<lparr>is_capable = True, reason = Empty\<rparr>\<rparr>)] [])"
  by (simp add: check_gpu_ability_def find_gpu_key_def manager_def truthy_def
      amd_just_over_1gib_def device_def check_static_memory_def static_gib_def BytesToGiB_def
      sakura_getitem_def sakura_2gib_def Let_def)

section \<open>Capacity checks: calculator failure\<close>

lemma dynamic_try_supplied_fails:
  "calc c = Inl e \<Longrightarrow> dynamic_try calc g avail tot (Some c) (Some n) = Inl e"
  by (simp add: dynamic_try_def)

lemma dynamic_try_recommend_fails:
  assumes "ctx = None \<or> np = None"
    and "p \<in> {1..16}" "calc (1536 * p) = Inl e"
    and "\<forall>q\<in>{p<..16}. \<exists>v. calc (1536 * q) = Inr v \<and> avail < v"
  shows "dynamic_try calc g avail tot ctx np = Inl e"
proof -
  from assms(2) have split: "rev [1..16] = rev [p + 1..16] @ p # rev [1..p - 1]"
    by (simp add: range_split)
  have "recommend_loop calc avail (pre @ p # post) best = Inl e"
    if "\<forall>q\<in>set pre. \<exists>v. calc (1536 * q) = Inr v \<and> avail < v" for pre post best
    using that assms(3) by (induction pre) auto
  from this [of "rev [p + 1..16]"] assms(4)
  have "recommend_config calc avail = Inl e"
    unfolding recommend_config_def split by simp
  with assms(1) show ?thesis
    by (cases ctx; cases np) (auto simp: dynamic_try_def)
qed

text \<open>
  Claim C2 (as amended). In dynamic mode, for a known model, when a call of the calculator that
  the check makes raises (the call for the supplied context length, or, with no supplied pair,
  a call of the recommendation search reached after larger candidates did not fit),
  \<open>check_gpu_ability\<close> raises nothing and falls back to comparing the live available memory
  in GiB, unrounded, with the model's minimum when that is not zero; the failing verdict cites
  the minimum and the available GiB.
\<close>

theorem check_gpu_ability_calculator_failure:
  assumes "find_gpu_key label (gpu_info_map self) = Inr (Some key)" "key \<noteq> []"
    and "map_of (gpu_info_map self) key = Some g" "gpu_type g = NVIDIA \<or> gpu_type g = AMD"
    and "avail_dedicated_gpu_memory g = Some a"
    and "sakura_getitem sl model_name = Some model"
    and "(\<exists>c n e. ctx = Some c \<and> np = Some n \<and> calc model c = Inl e)
       \<or> ((ctx = None \<or> np = None) \<and>
           (\<exists>p\<in>{1..16}. (\<exists>e. calc model (1536 * p) = Inl e)
              \<and> (\<forall>q\<in>{p<..16}. \<exists>v. calc model (1536 * q) = Inr v \<and> real_of_int a / 2 ^ 30 < v)))"
  shows "\<exists>self'. check_gpu_ability calc sl self label model_name ctx np =
     Inr (if minimal_gpu_memory_gib model \<noteq> 0
             \<and> real_of_int a / 2 ^ 30 < real_of_int (minimal_gpu_memory_gib model)
          then \<lparr>is_capable = False,
                reason = FallbackShort (name g) (real_of_int (minimal_gpu_memory_gib model))
                           (real_of_int a / 2 ^ 30)\<rparr>
          else \<lparr>is_capable = True, reason = Empty\<rparr>, self')"
proof -
  let ?avail = "BytesToGiB a" and ?tot = "BytesToGiB (dedicated_gpu_memory g)"
  from assms(7) have "\<exists>e. dynamic_try (calc model) g ?avail ?tot ctx np = Inl e"
  proof
    assume "\<exists>c n e. ctx = Some c \<and> np = Some n \<and> calc model c = Inl e"
    then show ?thesis by (auto simp: dynamic_try_supplied_fails)
  next
    assume "(ctx = None \<or> np = None) \<and>
           (\<exists>p\<in>{1..16}. (\<exists>e. calc model (1536 * p) = Inl e)
              \<and> (\<forall>q\<in>{p<..16}. \<exists>v. calc model (1536 * q) = Inr v \<and> real_of_int a / 2 ^ 30 < v))"
    then obtain p e where h: "ctx = None \<or> np = None" "p \<in> {1..16}"
      "calc model (1536 * p) = Inl e"
      "\<forall>q\<in>{p<..16}. \<exists>v. calc model (1536 * q) = Inr v \<and> ?avail < v"
      by (auto simp: BytesToGiB_def)
    from dynamic_try_recommend_fails [OF h] show ?thesis by blast
  qed
  then obtain e where "dynamic_try (calc model) g ?avail ?tot ctx np = Inl e" ..
  with assms(5,6) have "check_dynamic_memory calc sl g model_name ctx np =
     (if minimal_gpu_memory_gib model \<noteq> 0
             \<and> real_of_int a / 2 ^ 30 < real_of_int (minimal_gpu_memory_gib model)
          then \<lparr>is_capable = False,
                reason = FallbackShort (name g) (real_of_int (minimal_gpu_memory_gib model))
                           (real_of_int a / 2 ^ 30)\<rparr>
          else \<lparr>is_capable = True, reason = Empty\<rparr>)"
    by (simp add: check_dynamic_memory_def Let_def BytesToGiB_def)
  with assms(5) show ?thesis
    unfolding check_gpu_ability_resolved [OF assms(1-4)] by (simp add: Let_def)
qed

theorem check_gpu_ability_calculator_failure_witness:
  "\<exists>self'. check_gpu_ability failing_calc [sakura_2gib]
      (manager [(''00000000:01:00.0'', nvidia_8gib_1gib_free)] [''NVIDIA RTX (GPU 1)''])
      ''00000000:01:00.0'' ''model.gguf'' None None
    = Inr (\<lparr>is_capable = False, reason = FallbackShort ''NVIDIA RTX'' 2 1\<rparr>, self')"
proof -
  let ?self = "manager [(''00000000:01:00.0'', nvidia_8gib_1gib_free)] [''NVIDIA RTX (GPU 1)'']"
  have 1: "find_gpu_key ''00000000:01:00.0'' (gpu_info_map ?self) = Inr (Some ''00000000:01:00.0'')"
    by (simp add: find_gpu_key_def manager_def)
  have 2: "''00000000:01:00.0'' \<noteq> []" by simp
  have 3: "map_of (gpu_info_map ?self) ''00000000:01:00.0'' = Some nvidia_8gib_1gib_free"
    by (simp add: manager_def)
  have 4: "gpu_type nvidia_8gib_1gib_free = NVIDIA \<or> gpu_type nvidia_8gib_1gib_free = AMD"
    by (simp add: nvidia_8gib_1gib_free_def device_def)
  have 5: "avail_dedicated_gpu_memory nvidia_8gib_1gib_free = Some (2 ^ 30)"
    by (simp add: nvidia_8gib_1gib_free_def device_def)
  have 6: "sakura_getitem [sakura_2gib] ''model.gguf'' = Some sakura_2gib"
    by (simp add: sakura_getitem_def sakura_2gib_def)
  have "(16::int) \<in> {1..16} \<and> (\<exists>e. failing_calc sakura_2gib (1536 * 16) = Inl e)
     \<and> (\<forall>q\<in>{16<..16}. \<exists>v. failing_calc sakura_2gib (1536 * q) = Inr v \<and> real_of_int (2 ^ 30) / 2 ^ 30 < v)"
    by (simp add: failing_calc_def)
  then have 7: "(\<exists>c n e. (None :: int option) = Some c \<and> (None :: int option) = Some n \<and> failing_calc sakura_2gib c = Inl e)
       \<or> (((None :: int option) = None \<or> (None :: int option) = None) \<and>
           (\<exists>p\<in>{1..16}. (\<exists>e. failing_calc sakura_2gib (1536 * p) = Inl e)
              \<and> (\<forall>q\<in>{p<..16}. \<exists>v. failing_calc sakura_2gib (1536 * q) = Inr v \<and> real_of_int (2 ^ 30) / 2 ^ 30 < v)))"
    by blast
  have 8: "name nvidia_8gib_1gib_free = ''NVIDIA RTX''" "minimal_gpu_memory_gib sakura_2gib = 2"
    by (simp_all add: sakura_2gib_def nvidia_8gib_1gib_free_def device_def)
  from check_gpu_ability_calculator_failure [where calc = failing_calc and ctx = None and np = None
      and model = sakura_2gib, OF 1 2 3 4 5 6 7] 8
  show ?thesis by simp
qed

text \<open>The fallback of claim C2 is not the static check: a device with 8 GiB in total and
  1 GiB available fails the fallback for a model whose minimum is 2 GiB, and passes the static
  check on its total memory.\<close>

theorem calculator_failure_counterexample:
  "fst (projr (check_gpu_ability failing_calc [sakura_2gib]
      (manager [(''00000000:01:00.0'', nvidia_8gib_1gib_free)] [''NVIDIA RTX (GPU 1)''])
      ''00000000:01:00.0'' ''model.gguf'' None None))
     = \<lparr>is_capable = False, reason = FallbackShort ''NVIDIA RTX'' 2 1\<rparr>
   \<and> check_static_memory [sakura_2gib] nvidia_8gib_1gib_free ''model.gguf''
     = \<lparr>is_capable = True, reason = Empty\<rparr>"
  by (simp add: check_gpu_ability_def find_gpu_key_def manager_def truthy_def
      nvidia_8gib_1gib_free_def device_def check_static_memory_def static_gib_def BytesToGiB_def
      check_dynamic_memory_def dynamic_try_def recommend_config_def upto.simps failing_calc_def
      sakura_getitem_def sakura_2gib_def Let_def)

section \<open>Verdict caching and runtime selection\<close>

lemma map_of_map_entry_same:
  "map_of m k = Some v \<Longrightarrow> map_of (AList.map_entry k f m) k = Some (f v)"
  by (simp add: map_of_map_entry)

lemma map_of_map_entry_other:
  "k' \<noteq> k \<Longrightarrow> map_of (AList.map_entry k f m) k' = map_of m k'"
  by (simp add: map_of_map_entry)

text \<open>
  Claim C9 (as amended). When the label resolves to a device of the map (the key found is not
  empty) and the device is an NVIDIA or an AMD one, \<open>check_gpu_ability\<close> stores the verdict
  it returns in \<open>ability\<close> of that device, whatever was there, and leaves the other devices and
  the order of the keys as they were. For a device of another vendor it returns the
  "unsupported vendor" verdict and leaves the manager unchanged.
\<close>

theorem check_gpu_ability_writes_verdict:
  assumes "find_gpu_key label (gpu_info_map self) = Inr (Some key)" "key \<noteq> []"
    and "map_of (gpu_info_map self) key = Some g"
  shows "(gpu_type g = NVIDIA \<or> gpu_type g = AMD \<longrightarrow>
           (\<exists>verdict self'. check_gpu_ability calc sl self label model_name ctx np = Inr (verdict, self')
              \<and> map_of (gpu_info_map self') key = Some (g\<lparr>ability := Some verdict\<rparr>)
              \<and> (\<forall>k. k \<noteq> key \<longrightarrow> map_of (gpu_info_map self') k = map_of (gpu_info_map self) k)
              \<and> map fst (gpu_info_map self') = map fst (gpu_info_map self)))
       \<and> (gpu_type g \<noteq> NVIDIA \<and> gpu_type g \<noteq> AMD \<longrightarrow>
           check_gpu_ability calc sl self label model_name ctx np =
             Inr (\<lparr>is_capable = False, reason = UnsupportedVendor\<rparr>, self))"
proof (intro conjI impI)
  assume v: "gpu_type g = NVIDIA \<or> gpu_type g = AMD"
  have keys: "map fst (AList.map_entry key f m) = map fst m" for f :: "GPUInfo \<Rightarrow> GPUInfo" and m
    by (induction m) auto
  show "\<exists>verdict self'. check_gpu_ability calc sl self label model_name ctx np = Inr (verdict, self')
              \<and> map_of (gpu_info_map self') key = Some (g\<lparr>ability := Some verdict\<rparr>)
              \<and> (\<forall>k. k \<noteq> key \<longrightarrow> map_of (gpu_info_map self') k = map_of (gpu_info_map self) k)
              \<and> map fst (gpu_info_map self') = map fst (gpu_info_map self)"
    unfolding check_gpu_ability_resolved [OF assms(1,2,3) v]
    using assms(3) by (simp add: Let_def map_of_map_entry_same map_of_map_entry_other keys)
next
  assume "gpu_type g \<noteq> NVIDIA \<and> gpu_type g \<noteq> AMD"
  then show "check_gpu_ability calc sl self label model_name ctx np =
             Inr (\<lparr>is_capable = False, reason = UnsupportedVendor\<rparr>, self)"
    using check_gpu_ability_unsupported [OF assms] by simp
qed

theorem check_gpu_ability_writes_verdict_witness:
  "\<exists>self'. check_gpu_ability failing_calc [sakura_2gib] (manager [(''AMD Radeon'', amd_1gib)] [])
        ''AMD Radeon'' ''model.gguf'' None None
      = Inr (\<lparr>is_capable = False, reason = StaticShort ''AMD Radeon'' 2 1\<rparr>, self')
     \<and> map_of (gpu_info_map self') ''AMD Radeon''
        = Some (amd_1gib\<lparr>ability := Some \<lparr>is_capable = False, reason = StaticShort ''AMD Radeon'' 2 1\<rparr>\<rparr>)"
proof -
  let ?self = "manager [(''AMD Radeon'', amd_1gib)] []"
  have 1: "find_gpu_key ''AMD Radeon'' (gpu_info_map ?self) = Inr (Some ''AMD Radeon'')"
    by (simp add: find_gpu_key_def manager_def)
  have 2: "''AMD Radeon'' \<noteq> []" by simp
  have 3: "map_of (gpu_info_map ?self) ''AMD Radeon'' = Some amd_1gib"
    by (simp add: manager_def)
  have 4: "gpu_type amd_1gib = NVIDIA \<or> gpu_type amd_1gib = AMD"
    by (simp add: amd_1gib_def device_def)
  from check_gpu_ability_writes_verdict [OF 1 2 3, of failing_calc "[sakura_2gib]" "''model.gguf''" None None] 4
  obtain verdict self' where r:
    "check_gpu_ability failing_calc [sakura_2gib] ?self ''AMD Radeon'' ''model.gguf'' None None = Inr (verdict, self')"
    "map_of (gpu_info_map self') ''AMD Radeon'' = Some (amd_1gib\<lparr>ability := Some verdict\<rparr>)"
    by blast
  have "fst (projr (check_gpu_ability failing_calc [sakura_2gib] ?self ''AMD Radeon'' ''model.gguf'' None None))
     = \<lparr>is_capable = False, reason = StaticShort ''AMD Radeon'' 2 1\<rparr>"
    by (simp add: check_gpu_ability_def find_gpu_key_def manager_def truthy_def
      amd_1gib_def device_def check_static_memory_def static_gib_def BytesToGiB_def
      sakura_getitem_def sakura_2gib_def Let_def)
  with r have "verdict = \<lparr>is_capable = False, reason = StaticShort ''AMD Radeon'' 2 1\<rparr>"
    by simp
  with r show ?thesis by blast
qed

text \<open>
  Claim C9 as stated fails for a device that is neither NVIDIA nor AMD: the verdict returned is
  not stored, the \<open>ability\<close> of the device stays \<open>None\<close>.
\<close>

theorem unsupported_vendor_counterexample:
  "check_gpu_ability failing_calc [sakura_2gib] (manager [(''Intel Arc'', intel_arc)] [])
        ''Intel Arc'' ''model.gguf'' None None
      = Inr (\<lparr>is_capable = False, reason = UnsupportedVendor\<rparr>, manager [(''Intel Arc'', intel_arc)] [])
   \<and> ability (the (map_of (gpu_info_map (manager [(''Intel Arc'', intel_arc)] [])) ''Intel Arc'')) = None"
  by (simp add: check_gpu_ability_def find_gpu_key_def manager_def truthy_def intel_arc_def device_def)

lemma set_gpu_env_amd:
  assumes "find_gpu_key label (gpu_info_map self) = Inr (Some key)" "key \<noteq> []"
    and "map_of (gpu_info_map self) key = Some g" "gpu_type g = AMD"
  shows "set_gpu_env self env label selected_index =
     Inr (env(''HIP_VISIBLE_DEVICES'' \<mapsto> py_str (selected_index - int (length (nvidia_gpus self)))))"
  using assms by (simp add: set_gpu_env_def truthy_def)

text \<open>
  Claim C7. For a label that resolves to an AMD device (the key found is not empty, which is
  what \<open>set_gpu_env\<close> takes as found), \<open>HIP_VISIBLE_DEVICES\<close> is set to the decimal string of
  the selected index minus the number of NVIDIA display names. The witness is the example of
  the spec: two NVIDIA devices and one AMD device, index 2, value \<open>0\<close>.
\<close>

theorem set_gpu_env_amd_ordinal:
  assumes "find_gpu_key label (gpu_info_map self) = Inr (Some key)" "key \<noteq> []"
    and "map_of (gpu_info_map self) key = Some g" "gpu_type g = AMD"
  shows "set_gpu_env self env label selected_index =
     Inr (env(''HIP_VISIBLE_DEVICES'' \<mapsto> py_str (selected_index - int (length (nvidia_gpus self)))))"
  using assms by (rule set_gpu_env_amd)

theorem set_gpu_env_amd_ordinal_witness:
  "set_gpu_env two_nvidia_one_amd Map.empty ''AMD Radeon'' 2 = Inr [''HIP_VISIBLE_DEVICES'' \<mapsto> ''0'']"
proof -
  have 1: "find_gpu_key ''AMD Radeon'' (gpu_info_map two_nvidia_one_amd) = Inr (Some ''AMD Radeon'')"
    by (simp add: find_gpu_key_def two_nvidia_one_amd_def manager_def)
  have 2: "''AMD Radeon'' \<noteq> []" by simp
  have 3: "map_of (gpu_info_map two_nvidia_one_amd) ''AMD Radeon'' = Some amd_radeon"
    by (simp add: two_nvidia_one_amd_def manager_def)
  have 4: "gpu_type amd_radeon = AMD"
    by (simp add: amd_radeon_def device_def)
  have 5: "py_str (2 - int (length (nvidia_gpus two_nvidia_one_amd))) = ''0''"
    by (simp add: two_nvidia_one_amd_def manager_def py_str_def digits_of.simps digit_char_def)
  from set_gpu_env_amd_ordinal [OF 1 2 3 4, of Map.empty 2] 5
  show ?thesis by simp
qed

text \<open>
  Claim C10. There is no lower bound on the AMD ordinal: for a label that resolves to an AMD
  device and a selected index below the number of NVIDIA display names, \<open>set_gpu_env\<close> returns
  normally with \<open>HIP_VISIBLE_DEVICES\<close> set to a minus sign followed by the decimal digits of the
  difference.
\<close>

theorem set_gpu_env_amd_negative:
  assumes "find_gpu_key label (gpu_info_map self) = Inr (Some key)" "key \<noteq> []"
    and "map_of (gpu_info_map self) key = Some g" "gpu_type g = AMD"
    and "selected_index < int (length (nvidia_gpus self))"
  shows "set_gpu_env self env label selected_index =
     Inr (env(''HIP_VISIBLE_DEVICES'' \<mapsto>
            CHR ''-'' # digits_of (nat (int (length (nvidia_gpus self)) - selected_index))))"
  using assms(5) unfolding set_gpu_env_amd [OF assms(1-4)] by (simp add: py_str_def)

theorem set_gpu_env_amd_negative_witness:
  "set_gpu_env two_nvidia_one_amd Map.empty ''AMD Radeon'' 1 = Inr [''HIP_VISIBLE_DEVICES'' \<mapsto> ''-1'']"
proof -
  have 1: "find_gpu_key ''AMD Radeon'' (gpu_info_map two_nvidia_one_amd) = Inr (Some ''AMD Radeon'')"
    by (simp add: find_gpu_key_def two_nvidia_one_amd_def manager_def)
  have 2: "''AMD Radeon'' \<noteq> []" by simp
  have 3: "map_of (gpu_info_map two_nvidia_one_amd) ''AMD Radeon'' = Some amd_radeon"
    by (simp add: two_nvidia_one_amd_def manager_def)
  have 4: "gpu_type amd_radeon = AMD"
    by (simp add: amd_radeon_def device_def)
  have 5: "1 < int (length (nvidia_gpus two_nvidia_one_amd))"
    by (simp add: two_nvidia_one_amd_def manager_def)
  have 6: "digits_of (nat (int (length (nvidia_gpus two_nvidia_one_amd)) - 1)) = ''1''"
    by (simp add: two_nvidia_one_amd_def manager_def digits_of.simps digit_char_def)
  from set_gpu_env_amd_negative [OF 1 2 3 4 5, of Map.empty] 6
  show ?thesis by simp
qed

section \<open>The index from a PCI bus id\<close>

lemma map_sum_id_Inl [simp]: "map_sum id f x = Inl e \<longleftrightarrow> x = Inl e"
  by (cases x) auto

lemma map_sum_id_Inr [simp]: "map_sum id f x = Inr y \<longleftrightarrow> (\<exists>v. x = Inr v \<and> y = f v)"
  by (cases x) auto

lemma py_int_error: "py_int s base = Inl e \<Longrightarrow> e = ValueError"
  by (auto simp: py_int_def Let_def split: prod.splits if_splits)

lemma py_index_error: "py_index xs i = Inl e \<Longrightarrow> e = IndexError"
  by (auto simp: py_index_def split: if_splits)

lemma py_index_mem: "py_index xs i = Inr x \<Longrightarrow> x \<in> set xs"
  by (auto simp: py_index_def split: if_splits)

lemma py_split_colon: "py_split s '':'' = Inr (split_from CHR '':'' [] [] s)"
  by (simp add: py_split_def)

lemma split_from_chars:
  "part \<in> set (split_from a as cur s) \<Longrightarrow> set part \<subseteq> set cur \<union> set s"
proof (induction a as cur s rule: split_from.induct)
  case (1 a as cur)
  then show ?case by simp
next
  case (2 a as cur c cs)
  show ?case
  proof (cases "prefix (a # as) (c # cs)")
    case True
    with "2.prems" have "part = cur \<or> part \<in> set (split_from a as [] (drop (length as) cs))"
      by (auto split: if_splits)
    then show ?thesis
    proof
      assume "part = cur" then show ?thesis by auto
    next
      assume "part \<in> set (split_from a as [] (drop (length as) cs))"
      from "2.IH"(1) [OF True this] have "set part \<subseteq> set (drop (length as) cs)" by simp
      moreover have "set (drop (length as) cs) \<subseteq> set cs" by (rule set_drop_subset)
      ultimately show ?thesis by auto
    qed
  next
    case False
    with "2.prems" have "part \<in> set (split_from a as (cur @ [c]) cs)"
      by (auto split: if_splits)
    from "2.IH"(2) [OF False this] show ?thesis by auto
  qed
qed

lemma py_int_negative:
  assumes "py_int s base = Inr n" "n < 0"
  shows "CHR ''-'' \<in> set s"
proof -
  obtain neg s1 where ss: "strip_sign (dropWhile py_isspace s) = (neg, s1)"
    by (cases "strip_sign (dropWhile py_isspace s)")
  with assms have "neg"
    by (auto simp: py_int_def Let_def split: if_splits)
  with ss have "CHR ''-'' \<in> set (dropWhile py_isspace s)"
    by (auto simp: strip_sign_def split: list.splits if_splits)
  then show ?thesis by (rule set_dropWhileD)
qed

lemma pci_try_error: "pci_try s = Inl e \<Longrightarrow> e = IndexError \<or> e = ValueError"
  by (auto simp: pci_try_def py_split_colon split: if_splits sum.splits
      dest: py_int_error py_index_error)

lemma pci_try_negative:
  assumes "pci_try s = Inr (Some n)" "n < 0"
  shows "CHR ''-'' \<in> set s"
proof -
  from assms(1) obtain d where d: "py_index (split_from CHR '':'' [] [] s) 1 = Inr d"
    "py_int d 16 = Inr n"
    by (auto simp: pci_try_def py_split_colon split: if_splits sum.splits)
  from d(1) have "d \<in> set (split_from CHR '':'' [] [] s)" by (rule py_index_mem)
  then have "set d \<subseteq> set s" using split_from_chars by fastforce
  moreover from d(2) assms(2) have "CHR ''-'' \<in> set d" by (rule py_int_negative)
  ultimately show ?thesis by blast
qed

text \<open>
  Claim C8 (as amended). \<open>get_gpu_index_from_pci\<close> returns an integer for every string and
  raises nothing. It returns 0 for the empty string, for a string with no colon, and whenever
  the body of its \<open>try\<close> raises (the second field is not accepted by \<open>int(_, 16)\<close>). The
  result is not negative when the string has no minus sign.
\<close>

theorem get_gpu_index_from_pci_total:
  "(\<exists>n. get_gpu_index_from_pci s = Inr n)
   \<and> (s = [] \<or> \<not> sublist '':'' s \<longrightarrow> get_gpu_index_from_pci s = Inr 0)
   \<and> ((\<exists>e. pci_try s = Inl e) \<longrightarrow> get_gpu_index_from_pci s = Inr 0)
   \<and> (CHR ''-'' \<notin> set s \<longrightarrow> (\<exists>n\<ge>0. get_gpu_index_from_pci s = Inr n))"
proof (intro conjI impI)
  show total: "\<exists>n. get_gpu_index_from_pci s = Inr n"
    by (auto simp: get_gpu_index_from_pci_def split: sum.splits option.splits dest: pci_try_error)
  show "get_gpu_index_from_pci s = Inr 0" if "s = [] \<or> \<not> sublist '':'' s"
    using that by (auto simp: get_gpu_index_from_pci_def pci_try_def)
  show "get_gpu_index_from_pci s = Inr 0" if "\<exists>e. pci_try s = Inl e"
    using that by (auto simp: get_gpu_index_from_pci_def dest: pci_try_error)
  show "\<exists>n\<ge>0. get_gpu_index_from_pci s = Inr n" if "CHR ''-'' \<notin> set s"
  proof -
    from total obtain n where n: "get_gpu_index_from_pci s = Inr n" ..
    have "0 \<le> n"
    proof (rule ccontr)
      assume "\<not> 0 \<le> n"
      then have neg: "n < 0" by simp
      with n have "pci_try s = Inr (Some n)"
        by (auto simp: get_gpu_index_from_pci_def split: sum.splits option.splits if_splits)
      from pci_try_negative [OF this neg] that show False by simp
    qed
    with n show ?thesis by blast
  qed
qed

theorem get_gpu_index_from_pci_total_witness:
  "get_gpu_index_from_pci ''00000000:0A:00.0'' = Inr 10
   \<and> get_gpu_index_from_pci '''' = Inr 0
   \<and> get_gpu_index_from_pci ''0000:zz:00.0'' = Inr 0"
proof -
  have a: "get_gpu_index_from_pci ''00000000:0A:00.0'' = Inr 10"
    by (simp add: get_gpu_index_from_pci_def pci_try_def py_split_def py_index_def py_int_def
        sublist_code strip_sign_def strip_prefix_def is_digit_def digit_value_def py_isspace_def digits_value_def)
  have b: "pci_try ''0000:zz:00.0'' = Inl ValueError"
    by (simp add: pci_try_def py_split_def py_index_def py_int_def
        sublist_code strip_sign_def strip_prefix_def is_digit_def digit_value_def py_isspace_def digits_value_def)
  have c: "CHR ''-'' \<notin> set ''00000000:0A:00.0''" by simp
  from get_gpu_index_from_pci_total [of "''00000000:0A:00.0''"] c a
    get_gpu_index_from_pci_total [of "''''"]
    get_gpu_index_from_pci_total [of "''0000:zz:00.0''"] b
  show ?thesis by simp
qed

text \<open>
  Claim C8 as stated fails on a signed field: \<open>int("-1", 16)\<close> is \<open>-1\<close>, and that is
  what is returned.
\<close>

theorem pci_negative_counterexample:
  "get_gpu_index_from_pci ''0000:-1:00.0'' = Inr (- 1)"
  by (simp add: get_gpu_index_from_pci_def pci_try_def py_split_def py_index_def py_int_def
        sublist_code strip_sign_def strip_prefix_def is_digit_def digit_value_def py_isspace_def digits_value_def)

section \<open>Display names: conversions, round trip, failures\<close>

lemma digit_char_cases:
  assumes "d < 10"
  shows "digit_char d \<in> set ''0123456789''"
  using assms by (simp add: digit_char_def nth_mem del: set_simps)

lemma digit_value_digit_char: "d < 10 \<Longrightarrow> digit_value (digit_char d) = Some d"
proof -
  assume "d < 10"
  then have "d = 0 \<or> d = 1 \<or> d = 2 \<or> d = 3 \<or> d = 4 \<or> d = 5 \<or> d = 6 \<or> d = 7 \<or> d = 8 \<or> d = 9"
    by arith
  then show ?thesis
    by (elim disjE) (simp_all add: digit_char_def digit_value_def)
qed

lemma digit_char_plain:
  assumes "d < 10"
  shows "digit_char d \<noteq> CHR ''_''" "digit_char d \<noteq> CHR ''-''" "digit_char d \<noteq> CHR ''+''"
    "digit_char d \<noteq> CHR '')''" "digit_char d \<noteq> CHR '' ''" "\<not> py_isspace (digit_char d)"
    "is_digit 10 (digit_char d)"
  using digit_char_cases [OF assms] digit_value_digit_char [OF assms] assms
  by (auto simp: py_isspace_def is_digit_def)

lemma plain_digits_digits_of: "plain_digits (digits_of n)"
proof (induction n rule: digits_of.induct)
  case (1 n)
  have m: "\<exists>d<10. digit_char (n mod 10) = digit_char d"
    by (rule exI [of _ "n mod 10"]) simp
  show ?case
  proof (cases "n < 10")
    case True
    then have "digits_of n = [digit_char n]" by (subst digits_of.simps) simp
    with True show ?thesis by (auto simp: plain_digits_def)
  next
    case False
    then have "digits_of n = digits_of (n div 10) @ [digit_char (n mod 10)]"
      by (subst digits_of.simps) simp
    with 1 [OF False] m show ?thesis by (auto simp: plain_digits_def)
  qed
qed

lemma digits_of_nonempty: "digits_of n \<noteq> []"
  by (subst digits_of.simps) simp

lemma digits_value_snoc:
  "c \<noteq> CHR ''_'' \<Longrightarrow> digits_value b (ds @ [c]) = digits_value b ds * b + the (digit_value c)"
  by (simp add: digits_value_def)

lemma digits_value_digits_of: "digits_value 10 (digits_of n) = n"
proof (induction n rule: digits_of.induct)
  case (1 n)
  show ?case
  proof (cases "n < 10")
    case True
    then show ?thesis
      by (subst digits_of.simps) (simp add: digits_value_def digit_value_digit_char digit_char_plain)
  next
    case False
    then have "digits_of n = digits_of (n div 10) @ [digit_char (n mod 10)]"
      by (subst digits_of.simps) simp
    with False 1 show ?thesis
      by (simp add: digits_value_snoc digit_char_plain digit_value_digit_char)
  qed
qed

lemma plain_digits_facts:
  assumes "plain_digits ds"
  shows "takeWhile (\<lambda>c. is_digit 10 c \<or> c = CHR ''_'') ds = ds"
    "dropWhile (\<lambda>c. is_digit 10 c \<or> c = CHR ''_'') ds = []"
    "underscores_ok ds" "CHR '' '' \<notin> set ds" "CHR '')'' \<notin> set ds"
    "ds \<noteq> [] \<longrightarrow> hd ds \<noteq> CHR ''_'' \<and> hd ds \<noteq> CHR ''-'' \<and> hd ds \<noteq> CHR ''+'' \<and> \<not> py_isspace (hd ds)
       \<and> last ds \<noteq> CHR '')''"
proof -
  have all: "\<forall>c\<in>set ds. is_digit 10 c \<and> c \<noteq> CHR ''_'' \<and> c \<noteq> CHR '' '' \<and> c \<noteq> CHR '')''
      \<and> c \<noteq> CHR ''-'' \<and> c \<noteq> CHR ''+'' \<and> \<not> py_isspace c"
  proof
    fix c assume "c \<in> set ds"
    with assms obtain d where d: "d < 10" "c = digit_char d"
      by (auto simp: plain_digits_def)
    from digit_char_plain [OF d(1)] d(2)
    show "is_digit 10 c \<and> c \<noteq> CHR ''_'' \<and> c \<noteq> CHR '' '' \<and> c \<noteq> CHR '')''
      \<and> c \<noteq> CHR ''-'' \<and> c \<noteq> CHR ''+'' \<and> \<not> py_isspace c"
      by simp
  qed
  then show "takeWhile (\<lambda>c. is_digit 10 c \<or> c = CHR ''_'') ds = ds"
    by (simp add: takeWhile_eq_all_conv)
  from all show "dropWhile (\<lambda>c. is_digit 10 c \<or> c = CHR ''_'') ds = []"
    by simp
  from all show "underscores_ok ds"
    by (induction ds rule: underscores_ok.induct) auto
  from all show "CHR '' '' \<notin> set ds" "CHR '')'' \<notin> set ds" by auto
  from all show "ds \<noteq> [] \<longrightarrow> hd ds \<noteq> CHR ''_'' \<and> hd ds \<noteq> CHR ''-'' \<and> hd ds \<noteq> CHR ''+'' \<and> \<not> py_isspace (hd ds)
       \<and> last ds \<noteq> CHR '')''"
    by (metis hd_in_set last_in_set)
qed

lemma py_int_digits:
  assumes "plain_digits ds" "ds \<noteq> []"
  shows "py_int ds 10 = Inr (int (digits_value 10 ds))"
    and "py_int (CHR ''-'' # ds) 10 = Inr (- int (digits_value 10 ds))"
proof -
  note f = plain_digits_facts [OF assms(1)]
  from assms(2) obtain c cs where ds: "ds = c # cs" by (cases ds) auto
  with f(6) have c: "c \<noteq> CHR ''_''" "c \<noteq> CHR ''-''" "c \<noteq> CHR ''+''" "\<not> py_isspace c"
    by auto
  have sp: "strip_prefix 10 s = s" for s
    by (simp add: strip_prefix_def split: list.splits)
  from c have "dropWhile py_isspace ds = ds" "strip_sign ds = (False, ds)"
    by (simp_all add: ds strip_sign_def)
  with f(1,2,3) c assms(2) show "py_int ds 10 = Inr (int (digits_value 10 ds))"
    by (simp add: py_int_def sp ds)
  have "\<not> py_isspace CHR ''-''" by (simp add: py_isspace_def)
  then have "dropWhile py_isspace (CHR ''-'' # ds) = CHR ''-'' # ds"
    "strip_sign (CHR ''-'' # ds) = (True, ds)"
    by (simp_all add: strip_sign_def)
  with f(1,2,3) c assms(2) show "py_int (CHR ''-'' # ds) 10 = Inr (- int (digits_value 10 ds))"
    by (simp add: py_int_def sp ds)
qed

lemma py_int_py_str: "py_int (py_str i) 10 = Inr i"
  using py_int_digits [OF plain_digits_digits_of digits_of_nonempty]
  by (simp add: py_str_def digits_value_digits_of)

lemma rstrip_paren_py_str: "rstrip_paren (py_str i @ '')'') = py_str i"
proof -
  have "last (py_str i) \<noteq> CHR '')''"
    using plain_digits_facts(6) [OF plain_digits_digits_of] digits_of_nonempty
    by (simp add: py_str_def)
  moreover have "py_str i \<noteq> []" by (simp add: py_str_def digits_of_nonempty)
  ultimately have "dropWhile (\<lambda>c. c = CHR '')'') (rev (py_str i)) = rev (py_str i)"
    by (cases "py_str i" rule: rev_cases) auto
  then show ?thesis by (simp add: rstrip_paren_def)
qed

lemma py_str_no_space: "CHR '' '' \<notin> set (py_str i)"
  using plain_digits_facts(4) [OF plain_digits_digits_of] by (simp add: py_str_def)


lemma split_from_no_sep: "a \<notin> set s \<Longrightarrow> split_from a as cur s = [cur @ s]"
  by (induction s arbitrary: cur) auto

lemma gpu_sep_overlap:
  assumes "prefix '' (GPU '' (suf @ '' (GPU '' @ t)" "suf \<noteq> []"
  shows "suf = '' (GPU'' \<or> prefix '' (GPU '' suf"
proof -
  consider a where "suf = [a]" | a b where "suf = [a, b]" | a b c where "suf = [a, b, c]"
    | a b c d where "suf = [a, b, c, d]" | a b c d e where "suf = [a, b, c, d, e]"
    | a b c d e f r where "suf = a # b # c # d # e # f # r"
    using assms(2) by (metis list.exhaust)
  then show ?thesis using assms(1) by cases auto
qed

lemma split_from_gpu_sep:
  assumes "\<not> sublist '' (GPU '' n" "\<not> suffix '' (GPU'' n" "CHR '' '' \<notin> set t"
  shows "split_from CHR '' '' ''(GPU '' cur (n @ '' (GPU '' @ t) = [cur @ n, t]"
  using assms
proof (induction n arbitrary: cur)
  case Nil
  then show ?case by (simp add: split_from_no_sep)
next
  case (Cons c cs)
  have np: "\<not> prefix '' (GPU '' ((c # cs) @ '' (GPU '' @ t)"
  proof
    assume "prefix '' (GPU '' ((c # cs) @ '' (GPU '' @ t)"
    from gpu_sep_overlap [OF this] have "c # cs = '' (GPU'' \<or> prefix '' (GPU '' (c # cs)"
      by simp
    then show False
    proof
      assume "c # cs = '' (GPU''"
      with Cons.prems(2) show False by simp
    next
      assume "prefix '' (GPU '' (c # cs)"
      then have "sublist '' (GPU '' (c # cs)" by (rule prefix_imp_sublist)
      with Cons.prems(1) show False by simp
    qed
  qed
  have "\<not> sublist '' (GPU '' cs"
    using Cons.prems(1) by (meson sublist_Cons_right)
  moreover have "\<not> suffix '' (GPU'' cs"
    using Cons.prems(2) by (meson suffix_ConsI)
  ultimately have "split_from CHR '' '' ''(GPU '' (cur @ [c]) (cs @ '' (GPU '' @ t) = [(cur @ [c]) @ cs, t]"
    using Cons.prems(3) by (rule Cons.IH)
  with np show ?case by simp
qed

text \<open>
  Claim C4 (as amended). For a device with a non-empty \<open>pci_bus_id\<close> whose name neither
  contains \<open>" (GPU "\<close> nor ends with \<open>" (GPU"\<close>, and every integer index,
  \<open>parse_display_name\<close> of the display name returns the name and the index.
\<close>

theorem display_name_round_trip:
  assumes "truthy (pci_bus_id d)"
    and "\<not> sublist '' (GPU '' (name d)" "\<not> suffix '' (GPU'' (name d)"
  shows "parse_display_name (create_display_name d i) = Inr (name d, Some i)"
proof -
  let ?label = "name d @ '' (GPU '' @ py_str i @ '')''"
  have t: "CHR '' '' \<notin> set (py_str i @ '')'')"
    using py_str_no_space by simp
  have "sublist '' (GPU '' ?label"
    by (rule sublist_appendI)
  moreover have "sublist '')'' ?label"
    using sublist_appendI [of "'')''" "name d @ '' (GPU '' @ py_str i" "[]"] by simp
  moreover have "py_split ?label '' (GPU '' = Inr [name d, py_str i @ '')'']"
    using split_from_gpu_sep [OF assms(2,3) t, of "[]"] by (simp add: py_split_def)
  ultimately have "parse_display_name ?label = Inr (name d, Some i)"
    by (simp add: parse_display_name_def rstrip_paren_py_str py_int_py_str)
  with assms(1) show ?thesis by (simp add: create_display_name_def)
qed

theorem display_name_round_trip_witness:
  "parse_display_name (create_display_name nvidia_a 1) = Inr (''NVIDIA A'', Some 1)"
proof -
  have 1: "truthy (pci_bus_id nvidia_a)"
    by (simp add: nvidia_a_def device_def truthy_def)
  have 2: "\<not> sublist '' (GPU '' (name nvidia_a)" "\<not> suffix '' (GPU'' (name nvidia_a)"
    by (simp_all add: nvidia_a_def device_def sublist_code suffix_to_prefix)
  have 3: "name nvidia_a = ''NVIDIA A''"
    by (simp add: nvidia_a_def device_def)
  from display_name_round_trip [OF 1 2, of 1] 3 show ?thesis by simp
qed

text \<open>Claim C4 as stated fails for a name that ends with \<open>" (GPU"\<close>: the split cuts inside
  the name, and the label comes back whole, with no index.\<close>

theorem display_name_round_trip_counterexample:
  "truthy (pci_bus_id name_with_gpu_suffix)
   \<and> parse_display_name (create_display_name name_with_gpu_suffix 3) = Inr (''X (GPU (GPU 3)'', None)
   \<and> parse_display_name (create_display_name name_with_gpu_suffix 3)
       \<noteq> Inr (name name_with_gpu_suffix, Some 3)"
  by (simp add: name_with_gpu_suffix_def device_def truthy_def create_display_name_def
      py_str_def digits_of.simps digit_char_def parse_display_name_def sublist_code py_split_def
      rstrip_paren_def py_int_def strip_sign_def strip_prefix_def is_digit_def digit_value_def
      py_isspace_def digits_value_def)


text \<open>
  Claim C5 fails on the code. The label that \<open>create_display_name\<close> gives a device named
  \<open>Tesla (GPU 0)\<close> at index 1 contains the separator twice: the split has three parts, and
  their unpacking into two names, which is outside the \<open>try\<close>, raises \<open>ValueError\<close>.
\<close>

theorem parse_display_name_raises:
  "create_display_name (device ''Tesla (GPU 0)'' NVIDIA (8 * 2 ^ 30) None (Some ''00000000:01:00.0'')) 1
     = ''Tesla (GPU 0) (GPU 1)''
   \<and> parse_display_name ''Tesla (GPU 0) (GPU 1)'' = Inl ValueError"
  by (simp add: device_def truthy_def create_display_name_def
      py_str_def digits_of.simps digit_char_def parse_display_name_def sublist_code py_split_def)

text \<open>
  Claim C6 fails on the code for a negative parsed index, which passes the test
  \<open>gpu_index < len(matching_keys)\<close>: with one match, \<open>matching_keys[-3]\<close> raises \<open>IndexError\<close>;
  with two matches, \<open>matching_keys[-1]\<close> is the last match and not the first.
\<close>

theorem find_gpu_key_negative_index:
  "find_gpu_key ''A (GPU -3)'' [(''00000000:01:00.0'', device ''A'' NVIDIA (8 * 2 ^ 30) None (Some ''00000000:01:00.0''))]
     = Inl IndexError
   \<and> find_gpu_key ''A (GPU -1)'' two_cards_named_a = Inr (Some ''00000000:02:00.0'')"
  by (simp add: find_gpu_key_def two_cards_named_a_def device_def parse_display_name_def
      sublist_code py_split_def rstrip_paren_def py_int_def strip_sign_def strip_prefix_def
      is_digit_def digit_value_def py_isspace_def digits_value_def py_index_def)

end
